theory Spec2Isabelle
  imports Main
begin

section \<open>Pidroid: the leveling engine, level rewards and the role-change queue\<close>

text \<open>
  A shallow embedding of the XP award, level-reward and role-change-queue operations of
  \<^verbatim>\<open>src/pidroid/utils/api.py\<close> (class \<^verbatim>\<open>API\<close>). Python integers are unbounded, so every
  integer column and argument is an \<^typ>\<open>int\<close>. A table is the list of its rows in storage
  order; a query without \<^verbatim>\<open>ORDER BY\<close> reads the rows in that order. The session and
  transaction plumbing (\<^verbatim>\<open>session.begin\<close>, \<^verbatim>\<open>commit\<close>) and storage failures are outside the
  model: every statement is applied to the database state and returns the new state.
\<close>

subsection \<open>Tables\<close>

text \<open>
  The columns of \<^verbatim>\<open>UserLevelsTable\<close>, \<^verbatim>\<open>LevelRewardsTable\<close> and \<^verbatim>\<open>RoleChangeQueueTable\<close>.
  Several tables share column names (\<^verbatim>\<open>id\<close>, \<^verbatim>\<open>guild_id\<close>, \<^verbatim>\<open>level\<close>), so every field
  carries the prefix of its table: \<open>ul_\<close>, \<open>lr_\<close>, \<open>rq_\<close>.
\<close>

record UserLevelsTable =
  ul_id :: int
  ul_guild_id :: int
  ul_user_id :: int
  ul_total_xp :: int
  ul_current_xp :: int
  ul_xp_to_next_level :: int
  ul_level :: int
  ul_progress_character :: "string option"

record LevelRewardsTable =
  lr_id :: int
  lr_guild_id :: int
  lr_level :: int
  lr_role_id :: int

text \<open>
  \<^verbatim>\<open>RoleQueueState\<close> is declared in \<^verbatim>\<open>pidroid.models.role_changes\<close>; its integer encoding is
  never read by the operations below, so the \<^verbatim>\<open>status\<close> column holds the state itself.
  The \<^verbatim>\<open>date_created\<close> column is stamped by the database clock and never read here.
\<close>

datatype RoleQueueState = enqueued | processing | done_state

record RoleChangeQueueTable =
  rq_id :: int
  rq_action :: int
  rq_status :: RoleQueueState
  rq_guild_id :: int
  rq_member_id :: int
  rq_role_id :: int

text \<open>
  The database: the three tables and, for the two tables this code inserts into, the next value
  of the sequence behind the \<^verbatim>\<open>BigInteger\<close> primary key.
\<close>

record database =
  UserLevels :: "UserLevelsTable list"
  UserLevels_id_seq :: int
  LevelRewards :: "LevelRewardsTable list"
  RoleChangeQueue :: "RoleChangeQueueTable list"
  RoleChangeQueue_id_seq :: int

subsection \<open>Objects handed to and from the API\<close>

text \<open>
  \<^verbatim>\<open>MemberLevelInfo\<close> as \<^verbatim>\<open>award_xp\<close> constructs and reads it: the positional arguments
  \<^verbatim>\<open>row, guild_id, user_id, total_xp, current_xp, xp_to_level_up, level\<close> and the keywords
  \<^verbatim>\<open>progress_character\<close>, \<^verbatim>\<open>rank\<close>; the level is read back as \<^verbatim>\<open>current_level\<close>.
\<close>

record MemberLevelInfo =
  row :: int
  guild_id :: int
  user_id :: int
  total_xp :: int
  current_xp :: int
  xp_to_level_up :: int
  current_level :: int
  progress_character :: "string option"
  rank :: "int option"

text \<open>
  Modelled from the spec: \<^verbatim>\<open>MemberLevelInfo.from_table\<close> lives in \<^verbatim>\<open>pidroid.utils.levels\<close>,
  which is not among the sources. It is modelled after the unpacking of the same columns in
  \<^verbatim>\<open>fetch_ranked_user_level_info\<close>: \<^verbatim>\<open>row\<close> is the primary key, the remaining columns are
  copied in table order.
\<close>

definition MemberLevelInfo_from_table :: "UserLevelsTable \<Rightarrow> int option \<Rightarrow> MemberLevelInfo" where
  "MemberLevelInfo_from_table r rk =
     \<lparr>row = ul_id r, guild_id = ul_guild_id r, user_id = ul_user_id r,
      total_xp = ul_total_xp r, current_xp = ul_current_xp r,
      xp_to_level_up = ul_xp_to_next_level r, current_level = ul_level r,
      progress_character = ul_progress_character r, rank = rk\<rparr>"

text \<open>
  A message carries the guild it was sent in (\<^verbatim>\<open>None\<close> in a private channel) and its author,
  who is a guild \<^verbatim>\<open>Member\<close> or a plain \<^verbatim>\<open>User\<close>; both have an \<^verbatim>\<open>id\<close>.
\<close>

datatype Author = Member int | User int

record Message =
  message_id :: int
  guild :: "int option"
  author :: Author

datatype error = AssertionError

text \<open>What \<^verbatim>\<open>client.dispatch\<close> is called with.\<close>

datatype Dispatched =
  pidroid_level_up Author Message MemberLevelInfo MemberLevelInfo

subsection \<open>User levels\<close>

definition fetchone :: "'a list \<Rightarrow> 'a option" where
  "fetchone rows = (case rows of [] \<Rightarrow> None | r # _ \<Rightarrow> Some r)"

definition fetch_user_level_info :: "database \<Rightarrow> int \<Rightarrow> int \<Rightarrow> MemberLevelInfo option" where
  "fetch_user_level_info db g u =
     (case fetchone (filter (\<lambda>r. ul_guild_id r = g \<and> ul_user_id r = u) (UserLevels db)) of
        None \<Rightarrow> None
      | Some r \<Rightarrow> Some (MemberLevelInfo_from_table r None))"

text \<open>
  \<^verbatim>\<open>insert_member_level_info\<close>: the new row takes the server defaults of the table
  (\<^verbatim>\<open>total_xp = 0\<close>, \<^verbatim>\<open>current_xp = 0\<close>, \<^verbatim>\<open>xp_to_next_level = 100\<close>, \<^verbatim>\<open>level = 0\<close>, no progress
  character) and the next primary key, is read back, and the read is asserted to succeed.
\<close>

definition UserLevelsTable_new :: "int \<Rightarrow> int \<Rightarrow> int \<Rightarrow> UserLevelsTable" where
  "UserLevelsTable_new i g u =
     \<lparr>ul_id = i, ul_guild_id = g, ul_user_id = u,
      ul_total_xp = 0, ul_current_xp = 0, ul_xp_to_next_level = 100,
      ul_level = 0, ul_progress_character = None\<rparr>"

definition add_user_level_entry :: "database \<Rightarrow> int \<Rightarrow> int \<Rightarrow> database" where
  "add_user_level_entry db g u =
     db\<lparr>UserLevels := UserLevels db @ [UserLevelsTable_new (UserLevels_id_seq db) g u],
        UserLevels_id_seq := UserLevels_id_seq db + 1\<rparr>"

definition insert_member_level_info ::
  "database \<Rightarrow> int \<Rightarrow> int \<Rightarrow> error + database \<times> MemberLevelInfo" where
  "insert_member_level_info db g u =
     (let db' = add_user_level_entry db g u
      in case fetch_user_level_info db' g u of
           None \<Rightarrow> Inl AssertionError
         | Some info \<Rightarrow> Inr (db', info))"

text \<open>
  The \<^verbatim>\<open>while True\<close> loop of \<^verbatim>\<open>award_xp\<close> over \<^verbatim>\<open>new_level\<close>, \<^verbatim>\<open>new_xp\<close> and
  \<^verbatim>\<open>new_xp_to_next_level\<close>. Nothing in its text bounds the number of iterations, so it is a
  partial function: \<open>None\<close> stands for a loop that never leaves.
\<close>

partial_function (option) award_xp_loop :: "int \<Rightarrow> int \<Rightarrow> int \<Rightarrow> (int \<times> int \<times> int) option" where
  "award_xp_loop new_level new_xp new_xp_to_next_level =
     (if new_xp \<ge> new_xp_to_next_level
      then award_xp_loop (new_level + 1) (new_xp - new_xp_to_next_level)
             (5 * ((new_level + 1) ^ 2) + (50 * (new_level + 1)) + 100)
      else Some (new_level, new_xp, new_xp_to_next_level))"

declare award_xp_loop.simps [code]

text \<open>The \<^verbatim>\<open>UPDATE\<close> statement of \<^verbatim>\<open>award_xp\<close>: every row of the guild and member is set.\<close>

definition update_user_levels ::
  "database \<Rightarrow> int \<Rightarrow> int \<Rightarrow> int \<Rightarrow> int \<Rightarrow> int \<Rightarrow> int \<Rightarrow> database" where
  "update_user_levels db g u new_xp new_xp_to_next_level amount new_level =
     db\<lparr>UserLevels :=
          map (\<lambda>r. if ul_guild_id r = g \<and> ul_user_id r = u
                   then r\<lparr>ul_current_xp := new_xp,
                          ul_xp_to_next_level := new_xp_to_next_level,
                          ul_total_xp := ul_total_xp r + amount,
                          ul_level := new_level\<rparr>
                   else r)
              (UserLevels db)\<rparr>"

text \<open>
  \<^verbatim>\<open>award_xp\<close>. The result is \<open>None\<close> when the loop does not return, \<open>Inl\<close> when an assertion
  fails, and otherwise the new database with the list of dispatched events.
\<close>

definition award_xp ::
  "database \<Rightarrow> Message \<Rightarrow> int \<Rightarrow> (error + database \<times> Dispatched list) option" where
  "award_xp db message amount =
     (case guild message of
        None \<Rightarrow> Some (Inl AssertionError)
      | Some g \<Rightarrow>
     (case author message of
        User _ \<Rightarrow> Some (Inl AssertionError)
      | Member member_id \<Rightarrow>
     (case (case fetch_user_level_info db g member_id of
              Some info \<Rightarrow> Inr (db, False, info)
            | None \<Rightarrow>
               (case insert_member_level_info db g member_id of
                  Inl e \<Rightarrow> Inl e
                | Inr (db1, info) \<Rightarrow> Inr (db1, True, info))) of
        Inl e \<Rightarrow> Some (Inl e)
      | Inr (db1, new_insert, info) \<Rightarrow>
     (case award_xp_loop (current_level info) (current_xp info + amount) (xp_to_level_up info) of
        None \<Rightarrow> None
      | Some (new_level, new_xp, new_xp_to_next_level) \<Rightarrow>
          Some (Inr
            (update_user_levels db1 g member_id new_xp new_xp_to_next_level amount new_level,
             if new_insert \<or> new_level \<noteq> current_level info
             then [pidroid_level_up (author message) message info
                     \<lparr>row = row info, guild_id = g, user_id = member_id,
                      total_xp = total_xp info + amount, current_xp = new_xp,
                      xp_to_level_up = new_xp_to_next_level, current_level = new_level,
                      progress_character = progress_character info, rank = None\<rparr>]
             else []))))))"

text \<open>
  A sequence of \<^verbatim>\<open>award_xp\<close> calls, each on the database the previous one left; the run stops
  at the first call that raises or does not return. (The caller's loop, written here to state
  properties of sequences of awards.)
\<close>

fun award_xp_calls :: "database \<Rightarrow> (Message \<times> int) list \<Rightarrow> (error + database) option" where
  "award_xp_calls db [] = Some (Inr db)"
| "award_xp_calls db ((message, amount) # calls) =
     (case award_xp db message amount of
        None \<Rightarrow> None
      | Some (Inl e) \<Rightarrow> Some (Inl e)
      | Some (Inr (db', _)) \<Rightarrow> award_xp_calls db' calls)"

text \<open>
  The leveling algorithm in the words of the specification, as a relation between the state
  \<open>(level, xp, xp_to_next_level)\<close> before the loop and the state after it: while
  \<open>xp \<ge> xp_to_next_level\<close>, \<open>level += 1\<close>, \<open>xp -= xp_to_next_level\<close>,
  \<open>xp_to_next_level = 5 * level\<^sup>2 + 50 * level + 100\<close>.
\<close>

inductive spec_level_up :: "int \<times> int \<times> int \<Rightarrow> int \<times> int \<times> int \<Rightarrow> bool" where
  spec_stop: "xp < xp_to_next_level \<Longrightarrow>
     spec_level_up (level, xp, xp_to_next_level) (level, xp, xp_to_next_level)"
| spec_step: "xp \<ge> xp_to_next_level \<Longrightarrow>
     spec_level_up (level + 1, xp - xp_to_next_level,
                    5 * (level + 1) ^ 2 + 50 * (level + 1) + 100) result \<Longrightarrow>
     spec_level_up (level, xp, xp_to_next_level) result"

text \<open>
  A rank for the states of the loop, used to show that it ends: first the number of level-ups
  until the threshold is known to be positive, then the experience left.
\<close>

definition loop_rank :: "int \<times> int \<times> int \<Rightarrow> nat \<times> nat" where
  "loop_rank s = (case s of (l, x, t) \<Rightarrow>
     (if l < - 2 then nat (- 1 - l) else if t \<le> 0 then 1 else 0, nat x))"

subsection \<open>Level rewards\<close>

text \<open>
  Modelled from the spec: the class \<^verbatim>\<open>LevelReward\<close> and its \<^verbatim>\<open>from_table\<close> live in
  \<^verbatim>\<open>pidroid.utils.levels\<close>, which is not among the sources. The specification describes a
  reward as one row per (guild, level, role); the object copies the row.
\<close>

record LevelReward =
  reward_id :: int
  reward_guild_id :: int
  reward_role_id :: int
  reward_level :: int

definition LevelReward_from_table :: "LevelRewardsTable \<Rightarrow> LevelReward" where
  "LevelReward_from_table r =
     \<lparr>reward_id = lr_id r, reward_guild_id = lr_guild_id r,
      reward_role_id = lr_role_id r, reward_level = lr_level r\<rparr>"

text \<open>
  \<^verbatim>\<open>order_by(LevelRewardsTable.level.desc())\<close>: a sort by descending level. Rows of equal
  level keep their storage order (the database promises no order among them).
\<close>

definition order_by_level_desc :: "LevelRewardsTable list \<Rightarrow> LevelRewardsTable list" where
  "order_by_level_desc rows = sort_key (\<lambda>r. - lr_level r) rows"

definition fetch_eligible_level_rewards_for_level :: "database \<Rightarrow> int \<Rightarrow> int \<Rightarrow> LevelReward list" where
  "fetch_eligible_level_rewards_for_level db g level =
     map LevelReward_from_table
       (order_by_level_desc
          (filter (\<lambda>r. lr_guild_id r = g \<and> lr_level r \<le> level) (LevelRewards db)))"

definition fetch_eligible_level_reward_for_level :: "database \<Rightarrow> int \<Rightarrow> int \<Rightarrow> LevelReward option" where
  "fetch_eligible_level_reward_for_level db g level =
     (let rewards = fetch_eligible_level_rewards_for_level db g level
      in if length rewards = 0 then None else Some (rewards ! 0))"

text \<open>
  \<^verbatim>\<open>_fetch_previous_level_reward\<close> and \<^verbatim>\<open>_fetch_next_level_reward\<close> (named here without the
  leading underscore). Both order by level descending and take the first row.
\<close>

definition fetch_previous_level_reward :: "database \<Rightarrow> int \<Rightarrow> int \<Rightarrow> LevelReward option" where
  "fetch_previous_level_reward db g level =
     (case fetchone (order_by_level_desc
             (filter (\<lambda>r. lr_guild_id r = g \<and> lr_level r < level) (LevelRewards db))) of
        None \<Rightarrow> None
      | Some r \<Rightarrow> Some (LevelReward_from_table r))"

definition fetch_next_level_reward :: "database \<Rightarrow> int \<Rightarrow> int \<Rightarrow> LevelReward option" where
  "fetch_next_level_reward db g level =
     (case fetchone (order_by_level_desc
             (filter (\<lambda>r. lr_guild_id r = g \<and> lr_level r > level) (LevelRewards db))) of
        None \<Rightarrow> None
      | Some r \<Rightarrow> Some (LevelReward_from_table r))"

subsection \<open>Role-change queue\<close>

text \<open>
  Modelled from the spec: the enumeration \<^verbatim>\<open>RoleAction\<close> lives in
  \<^verbatim>\<open>pidroid.models.role_changes\<close>, which is not among the sources. The specification names
  the two actions grant and revoke and says that the roles to add are those of action grant;
  \<^verbatim>\<open>fetch_role_changes\<close> collects the roles to add from the rows with \<^verbatim>\<open>action == 1\<close> and the
  roles to remove from the rows with \<^verbatim>\<open>action == 0\<close>.
\<close>

datatype RoleAction = grant | revoke

fun RoleAction_value :: "RoleAction \<Rightarrow> int" where
  "RoleAction_value grant = 1"
| "RoleAction_value revoke = 0"

definition insert_role_change :: "database \<Rightarrow> RoleAction \<Rightarrow> int \<Rightarrow> int \<Rightarrow> int \<Rightarrow> database" where
  "insert_role_change db action g member_id role_id =
     db\<lparr>RoleChangeQueue := RoleChangeQueue db @
           [\<lparr>rq_id = RoleChangeQueue_id_seq db, rq_action = RoleAction_value action,
             rq_status = enqueued, rq_guild_id = g, rq_member_id = member_id,
             rq_role_id = role_id\<rparr>],
        RoleChangeQueue_id_seq := RoleChangeQueue_id_seq db + 1\<rparr>"

text \<open>
  The aggregate \<^verbatim>\<open>array_agg\<close>, also under a \<^verbatim>\<open>FILTER\<close>: the array of the values, or \<^verbatim>\<open>NULL\<close>
  when there is no value to aggregate.
\<close>

definition array_agg :: "'a list \<Rightarrow> 'a list option" where
  "array_agg vs = (if vs = [] then None else Some vs)"

text \<open>
  Modelled from the spec: the class \<^verbatim>\<open>MemberRoleChanges\<close> lives in
  \<^verbatim>\<open>pidroid.models.role_changes\<close>, which is not among the sources. Following the
  specification it holds the list of entry IDs, the set of role IDs to add and the set of role
  IDs to remove; an aggregate that came back \<^verbatim>\<open>NULL\<close> stands for no value.
\<close>

record MemberRoleChanges =
  mrc_guild_id :: int
  mrc_member_id :: int
  ids :: "int list"
  roles_added :: "int set"
  roles_removed :: "int set"

definition MemberRoleChanges_init ::
  "int \<Rightarrow> int \<Rightarrow> int list option \<Rightarrow> int list option \<Rightarrow> int list option \<Rightarrow> MemberRoleChanges" where
  "MemberRoleChanges_init g member_id ids_arr roles_added_arr roles_removed_arr =
     \<lparr>mrc_guild_id = g, mrc_member_id = member_id,
      ids = (case ids_arr of None \<Rightarrow> [] | Some xs \<Rightarrow> xs),
      roles_added = (case roles_added_arr of None \<Rightarrow> {} | Some xs \<Rightarrow> set xs),
      roles_removed = (case roles_removed_arr of None \<Rightarrow> {} | Some xs \<Rightarrow> set xs)\<rparr>"

text \<open>
  \<^verbatim>\<open>fetch_role_changes\<close>: the rows of the guild, grouped by \<^verbatim>\<open>member_id\<close>; one result row per
  member that has a row (the database promises no order among the groups).
\<close>

definition fetch_role_changes :: "database \<Rightarrow> int \<Rightarrow> MemberRoleChanges list" where
  "fetch_role_changes db g =
     (let rows = filter (\<lambda>r. rq_guild_id r = g) (RoleChangeQueue db)
      in map (\<lambda>member_id.
               (let grp = filter (\<lambda>r. rq_member_id r = member_id) rows
                in MemberRoleChanges_init g member_id
                     (array_agg (map rq_id grp))
                     (array_agg (map rq_role_id (filter (\<lambda>r. rq_action r = 1) grp)))
                     (array_agg (map rq_role_id (filter (\<lambda>r. rq_action r = 0) grp)))))
             (remdups (map rq_member_id rows)))"

definition delete_role_changes :: "database \<Rightarrow> int list \<Rightarrow> database" where
  "delete_role_changes db id_list =
     db\<lparr>RoleChangeQueue := filter (\<lambda>r. rq_id r \<notin> set id_list) (RoleChangeQueue db)\<rparr>"

subsection \<open>Reading the stored state\<close>

text \<open>
  The lifetime total of a member as the table has it, read the way the code reads a member's
  state; a member without a row has accumulated nothing.
\<close>

definition stored_total_xp :: "database \<Rightarrow> int \<Rightarrow> int \<Rightarrow> int" where
  "stored_total_xp db g u =
     (case fetch_user_level_info db g u of None \<Rightarrow> 0 | Some info \<Rightarrow> total_xp info)"

text \<open>The rows of the queue that are pending for a guild: all of its rows.\<close>

definition pending_entries :: "database \<Rightarrow> int \<Rightarrow> RoleChangeQueueTable list" where
  "pending_entries db g = filter (\<lambda>r. rq_guild_id r = g) (RoleChangeQueue db)"

subsection \<open>Example data\<close>

text \<open>A message of member 20 in guild 10, and a database with no rows.\<close>

definition example_message :: Message where
  "example_message = \<lparr>message_id = 1, guild = Some 10, author = Member 20\<rparr>"

definition empty_database :: database where
  "empty_database = \<lparr>UserLevels = [], UserLevels_id_seq = 1, LevelRewards = [],
                      RoleChangeQueue = [], RoleChangeQueue_id_seq = 1\<rparr>"

text \<open>Guild 10 with rewards at the levels 10, 5 and 20, stored in this order.\<close>

definition example_rewards :: database where
  "example_rewards =
     \<lparr>UserLevels = [], UserLevels_id_seq = 1,
      LevelRewards =
        [\<lparr>lr_id = 1, lr_guild_id = 10, lr_level = 10, lr_role_id = 110\<rparr>,
         \<lparr>lr_id = 2, lr_guild_id = 10, lr_level = 5, lr_role_id = 105\<rparr>,
         \<lparr>lr_id = 3, lr_guild_id = 10, lr_level = 20, lr_role_id = 120\<rparr>],
      RoleChangeQueue = [], RoleChangeQueue_id_seq = 1\<rparr>"

section \<open>Properties of the loop and of the level table\<close>

lemma curve_pos: "-2 \<le> l \<Longrightarrow> 20 \<le> 5 * (l ^ 2) + (50 * l) + (100::int)"
proof -
  assume h: "-2 \<le> l"
  have e: "5 * (l ^ 2) + (50 * l) + 100 = 5 * (l + 2) ^ 2 + 30 * (l + 2) + 20"
    by (simp add: power2_eq_square algebra_simps)
  have "0 \<le> 5 * (l + 2) ^ 2" by simp
  moreover have "0 \<le> 30 * (l + 2)" using h by simp
  ultimately show ?thesis unfolding e by linarith
qed

lemma loop_rank_decreases:
  assumes "t \<le> x"
  shows "(loop_rank (l + 1, x - t, 5 * ((l + 1) ^ 2) + (50 * (l + 1)) + 100), loop_rank (l, x, t))
           \<in> less_than <*lex*> less_than"
proof (cases "l + 1 < -2")
  case True
  then show ?thesis by (simp add: loop_rank_def)
next
  case False
  then have "-2 \<le> l + 1" by simp
  from curve_pos [OF this] have p: "\<not> 5 * ((l + 1) ^ 2) + (50 * (l + 1)) + 100 \<le> 0" by linarith
  show ?thesis
  proof (cases "l < -2 \<or> t \<le> 0")
    case True
    with False p show ?thesis by (auto simp add: loop_rank_def)
  next
    case False
    with \<open>\<not> l + 1 < -2\<close> p assms show ?thesis by (simp add: loop_rank_def)
  qed
qed

lemma loop_induct [case_names step]:
  fixes P :: "int \<Rightarrow> int \<Rightarrow> int \<Rightarrow> bool"
  assumes step: "\<And>l x t. (t \<le> x \<Longrightarrow> P (l + 1) (x - t) (5 * ((l + 1) ^ 2) + (50 * (l + 1)) + 100)) \<Longrightarrow> P l x t"
  shows "P l x t"
proof -
  have w: "wf (inv_image (less_than <*lex*> less_than) loop_rank)"
    by (intro wf_inv_image wf_lex_prod wf_less_than)
  have "case s of (l, x, t) \<Rightarrow> P l x t" for s :: "int \<times> int \<times> int"
  proof (induction s rule: wf_induct_rule [OF w])
    case (1 s)
    obtain l x t where s: "s = (l, x, t)" by (cases s) auto
    have "P l x t"
    proof (rule step)
      assume "t \<le> x"
      from "1" [of "(l + 1, x - t, 5 * ((l + 1) ^ 2) + (50 * (l + 1)) + 100)"]
        loop_rank_decreases [OF \<open>t \<le> x\<close>, of l]
      show "P (l + 1) (x - t) (5 * ((l + 1) ^ 2) + (50 * (l + 1)) + 100)"
        by (simp add: s)
    qed
    then show ?case by (simp add: s)
  qed
  from this [of "(l, x, t)"] show ?thesis by simp
qed

lemma award_xp_loop_returns: "\<exists>r. award_xp_loop l x t = Some r"
proof (induction l x t rule: loop_induct)
  case (step l x t)
  show ?case
  proof (cases "t \<le> x")
    case True
    with step show ?thesis by (subst award_xp_loop.simps) simp
  next
    case False
    then show ?thesis by (subst award_xp_loop.simps) simp
  qed
qed


lemma award_xp_loop_spec:
  "award_xp_loop l x t = Some r \<Longrightarrow> spec_level_up (l, x, t) r"
proof (induction l x t rule: loop_induct)
  case (step l x t)
  show ?case
  proof (cases "t \<le> x")
    case True
    with step.prems have "award_xp_loop (l + 1) (x - t) (5 * ((l + 1) ^ 2) + (50 * (l + 1)) + 100) = Some r"
      by (subst (asm) award_xp_loop.simps) simp
    with step.IH True have s: "spec_level_up (l + 1, x - t, 5 * (l + 1) ^ 2 + 50 * (l + 1) + 100) r"
      by simp
    show ?thesis by (rule spec_step [OF True s])
  next
    case False
    with step.prems have "r = (l, x, t)"
      by (subst (asm) award_xp_loop.simps) simp
    with False show ?thesis by (simp add: spec_stop)
  qed
qed

lemma award_xp_loop_exit:
  "award_xp_loop l x t = Some (nl, nx, nt) \<Longrightarrow> nx < nt \<and> l \<le> nl \<and> (nl = l \<longleftrightarrow> x < t)"
proof (induction l x t rule: loop_induct)
  case (step l x t)
  show ?case
  proof (cases "t \<le> x")
    case True
    with step.prems have "award_xp_loop (l + 1) (x - t) (5 * ((l + 1) ^ 2) + (50 * (l + 1)) + 100) = Some (nl, nx, nt)"
      by (subst (asm) award_xp_loop.simps) simp
    with step.IH True have "nx < nt \<and> l + 1 \<le> nl" by simp
    with True show ?thesis by simp
  next
    case False
    with step.prems have "(nl, nx, nt) = (l, x, t)"
      by (subst (asm) award_xp_loop.simps) simp
    with False show ?thesis by simp
  qed
qed

lemma fetchone_None_iff: "fetchone rows = None \<longleftrightarrow> rows = []"
  by (cases rows) (simp_all add: fetchone_def)

lemma fetchone_Some_mem: "fetchone rows = Some r \<Longrightarrow> r \<in> set rows"
  by (cases rows) (simp_all add: fetchone_def)

lemma fetch_user_level_info_None_iff:
  "fetch_user_level_info db g u = None \<longleftrightarrow>
     (\<forall>r \<in> set (UserLevels db). \<not> (ul_guild_id r = g \<and> ul_user_id r = u))"
proof -
  have "fetch_user_level_info db g u = None \<longleftrightarrow>
          filter (\<lambda>r. ul_guild_id r = g \<and> ul_user_id r = u) (UserLevels db) = []"
    by (cases "filter (\<lambda>r. ul_guild_id r = g \<and> ul_user_id r = u) (UserLevels db)")
       (simp_all add: fetch_user_level_info_def fetchone_def)
  then show ?thesis by (simp add: filter_empty_conv)
qed

lemma fetch_user_level_info_inserted:
  assumes "fetch_user_level_info db g u = None"
  shows "fetch_user_level_info (add_user_level_entry db g u) g u =
     Some (MemberLevelInfo_from_table (UserLevelsTable_new (UserLevels_id_seq db) g u) None)"
proof -
  from assms have "filter (\<lambda>r. ul_guild_id r = g \<and> ul_user_id r = u) (UserLevels db) = []"
    by (simp add: fetch_user_level_info_None_iff filter_empty_conv)
  then show ?thesis
    by (simp add: fetch_user_level_info_def fetchone_def add_user_level_entry_def
          UserLevelsTable_new_def)
qed

lemma insert_member_level_info_fresh:
  assumes "fetch_user_level_info db g u = None"
  shows "insert_member_level_info db g u =
     Inr (add_user_level_entry db g u,
          MemberLevelInfo_from_table (UserLevelsTable_new (UserLevels_id_seq db) g u) None)"
  by (simp add: insert_member_level_info_def fetch_user_level_info_inserted [OF assms])

lemma filter_map_preserved:
  "(\<And>r. P (f r) = P r) \<Longrightarrow> filter P (map f rows) = map f (filter P rows)"
  by (induction rows) simp_all

lemma fetch_user_level_info_update:
  "fetch_user_level_info (update_user_levels db g u nx nt a nl) g u =
     map_option (\<lambda>info. info\<lparr>total_xp := total_xp info + a, current_xp := nx,
                              xp_to_level_up := nt, current_level := nl\<rparr>)
       (fetch_user_level_info db g u)"
proof -
  let ?P = "\<lambda>r. ul_guild_id r = g \<and> ul_user_id r = u"
  let ?f = "\<lambda>r. if ul_guild_id r = g \<and> ul_user_id r = u
                   then r\<lparr>ul_current_xp := nx, ul_xp_to_next_level := nt,
                          ul_total_xp := ul_total_xp r + a, ul_level := nl\<rparr>
                   else r"
  have e: "filter ?P (map ?f (UserLevels db)) = map ?f (filter ?P (UserLevels db))"
    by (rule filter_map_preserved) simp
  show ?thesis
  proof (cases "filter ?P (UserLevels db)")
    case Nil
    with e show ?thesis
      by (simp add: fetch_user_level_info_def update_user_levels_def fetchone_def)
  next
    case (Cons r rest)
    then have "r \<in> set (filter ?P (UserLevels db))" by simp
    then have "?P r" by simp
    with e Cons show ?thesis
      by (simp add: fetch_user_level_info_def update_user_levels_def fetchone_def
            MemberLevelInfo_from_table_def)
  qed
qed

lemma update_user_levels_matching:
  assumes "r' \<in> set (UserLevels (update_user_levels db g u nx nt a nl))"
    and "ul_guild_id r' = g" "ul_user_id r' = u"
  shows "ul_current_xp r' = nx \<and> ul_xp_to_next_level r' = nt \<and> ul_level r' = nl"
proof -
  from assms(1) obtain r where "r \<in> set (UserLevels db)"
    and r': "r' = (if ul_guild_id r = g \<and> ul_user_id r = u
                 then r\<lparr>ul_current_xp := nx, ul_xp_to_next_level := nt,
                        ul_total_xp := ul_total_xp r + a, ul_level := nl\<rparr>
                 else r)"
    by (auto simp add: update_user_levels_def)
  show ?thesis
  proof (cases "ul_guild_id r = g \<and> ul_user_id r = u")
    case True
    with r' show ?thesis by simp
  next
    case False
    with r' assms(2,3) show ?thesis by simp
  qed
qed

text \<open>
  The event \<^verbatim>\<open>award_xp\<close> dispatches: the author, the message, the state read before the
  award and the state built from it.
\<close>

lemma award_xp_existing:
  assumes "guild message = Some g" "author message = Member m"
    and "fetch_user_level_info db g m = Some info"
    and "award_xp_loop (current_level info) (current_xp info + amount) (xp_to_level_up info)
           = Some (nl, nx, nt)"
  shows "award_xp db message amount =
     Some (Inr (update_user_levels db g m nx nt amount nl,
                if nl \<noteq> current_level info
                then [pidroid_level_up (Member m) message info
                        \<lparr>row = row info, guild_id = g, user_id = m,
                         total_xp = total_xp info + amount, current_xp = nx,
                         xp_to_level_up = nt, current_level = nl,
                         progress_character = progress_character info, rank = None\<rparr>]
                else []))"
  using assms by (simp add: award_xp_def)

lemma award_xp_fresh:
  assumes "guild message = Some g" "author message = Member m"
    and "fetch_user_level_info db g m = None"
    and "info = MemberLevelInfo_from_table (UserLevelsTable_new (UserLevels_id_seq db) g m) None"
    and "award_xp_loop (current_level info) (current_xp info + amount) (xp_to_level_up info)
           = Some (nl, nx, nt)"
  shows "award_xp db message amount =
     Some (Inr (update_user_levels (add_user_level_entry db g m) g m nx nt amount nl,
                [pidroid_level_up (Member m) message info
                   \<lparr>row = row info, guild_id = g, user_id = m,
                    total_xp = total_xp info + amount, current_xp = nx,
                    xp_to_level_up = nt, current_level = nl,
                    progress_character = progress_character info, rank = None\<rparr>]))"
  using assms by (simp add: award_xp_def insert_member_level_info_fresh)

text \<open>
  Every call on a message of a guild member returns; the level state it starts from is the
  stored one or the one it has just inserted.
\<close>

lemma award_xp_result:
  assumes "guild message = Some g" and "author message = Member m"
  obtains db1 info nl nx nt where
    "fetch_user_level_info db g m = Some info \<and> db1 = db \<or>
     fetch_user_level_info db g m = None \<and> db1 = add_user_level_entry db g m \<and>
       info = MemberLevelInfo_from_table (UserLevelsTable_new (UserLevels_id_seq db) g m) None"
    and "fetch_user_level_info db1 g m = Some info"
    and "award_xp_loop (current_level info) (current_xp info + amount) (xp_to_level_up info)
           = Some (nl, nx, nt)"
    and "award_xp db message amount =
      Some (Inr (update_user_levels db1 g m nx nt amount nl,
                 if fetch_user_level_info db g m = None \<or> nl \<noteq> current_level info
                 then [pidroid_level_up (Member m) message info
                         \<lparr>row = row info, guild_id = g, user_id = m,
                          total_xp = total_xp info + amount, current_xp = nx,
                          xp_to_level_up = nt, current_level = nl,
                          progress_character = progress_character info, rank = None\<rparr>]
                 else []))"
proof (cases "fetch_user_level_info db g m")
  case None
  define info where
    "info = MemberLevelInfo_from_table (UserLevelsTable_new (UserLevels_id_seq db) g m) None"
  obtain nl nx nt where l: "award_xp_loop (current_level info) (current_xp info + amount)
      (xp_to_level_up info) = Some (nl, nx, nt)"
    using award_xp_loop_returns [of "current_level info" "current_xp info + amount" "xp_to_level_up info"]
    by auto
  have f: "fetch_user_level_info (add_user_level_entry db g m) g m = Some info"
    unfolding info_def by (rule fetch_user_level_info_inserted [OF None])
  show ?thesis
    by (rule that [of info "add_user_level_entry db g m" nl nx nt])
       (simp_all add: None l f award_xp_fresh [OF assms None info_def l], simp add: info_def)
next
  case (Some info)
  obtain nl nx nt where l: "award_xp_loop (current_level info) (current_xp info + amount)
      (xp_to_level_up info) = Some (nl, nx, nt)"
    using award_xp_loop_returns [of "current_level info" "current_xp info + amount" "xp_to_level_up info"]
    by auto
  show ?thesis
    by (rule that [of info db nl nx nt])
       (simp_all add: Some l award_xp_existing [OF assms Some l])
qed

text \<open>The relation of the specification has at most one result for a state.\<close>

lemma spec_level_up_deterministic:
  "spec_level_up s r \<Longrightarrow> spec_level_up s r' \<Longrightarrow> r = r'"
proof (induction arbitrary: r' rule: spec_level_up.induct)
  case (spec_stop xp xp_to_next_level level)
  from spec_stop.prems spec_stop.hyps show ?case
    by (auto elim: spec_level_up.cases)
next
  case (spec_step xp xp_to_next_level level result)
  from spec_step.prems spec_step.hyps(1)
  have "spec_level_up (level + 1, xp - xp_to_next_level,
                    5 * (level + 1) ^ 2 + 50 * (level + 1) + 100) r'"
    by (auto elim: spec_level_up.cases)
  then show ?case by (rule spec_step.IH)
qed

lemma award_xp_loop_first_level: "award_xp_loop 0 100 100 = Some (1, 0, 155)"
  by (simp add: award_xp_loop.simps)

lemma fetch_user_level_info_key:
  assumes "fetch_user_level_info db g u = Some info"
  shows "guild_id info = g \<and> user_id info = u \<and> rank info = None"
proof -
  from assms obtain r where f: "fetchone (filter (\<lambda>r. ul_guild_id r = g \<and> ul_user_id r = u) (UserLevels db)) = Some r"
    and i: "info = MemberLevelInfo_from_table r None"
    by (auto simp add: fetch_user_level_info_def split: option.splits)
  from fetchone_Some_mem [OF f] have "ul_guild_id r = g \<and> ul_user_id r = u" by simp
  with i show ?thesis by (simp add: MemberLevelInfo_from_table_def)
qed

text \<open>One award adds its amount to the stored total.\<close>

lemma award_xp_adds_amount:
  assumes "guild message = Some g" and "author message = Member m"
  shows "\<exists>db' events. award_xp db message amount = Some (Inr (db', events)) \<and>
           stored_total_xp db' g m = stored_total_xp db g m + amount"
proof (rule award_xp_result [OF assms, of db amount])
  fix db1 info nl nx nt
  assume s: "fetch_user_level_info db g m = Some info \<and> db1 = db \<or>
             fetch_user_level_info db g m = None \<and> db1 = add_user_level_entry db g m \<and>
             info = MemberLevelInfo_from_table (UserLevelsTable_new (UserLevels_id_seq db) g m) None"
    and f: "fetch_user_level_info db1 g m = Some info"
    and a: "award_xp db message amount =
      Some (Inr (update_user_levels db1 g m nx nt amount nl,
                 if fetch_user_level_info db g m = None \<or> nl \<noteq> current_level info
                 then [pidroid_level_up (Member m) message info
                         \<lparr>row = row info, guild_id = g, user_id = m,
                          total_xp = total_xp info + amount, current_xp = nx,
                          xp_to_level_up = nt, current_level = nl,
                          progress_character = progress_character info, rank = None\<rparr>]
                 else []))"
  from s have t: "stored_total_xp db g m = total_xp info"
    by (auto simp add: stored_total_xp_def MemberLevelInfo_from_table_def UserLevelsTable_new_def)
  have "stored_total_xp (update_user_levels db1 g m nx nt amount nl) g m = total_xp info + amount"
    by (simp add: stored_total_xp_def fetch_user_level_info_update f)
  with t a show ?thesis by simp
qed

text \<open>What the \<^verbatim>\<open>UPDATE\<close> leaves alone.\<close>

lemma update_user_levels_rows:
  "list_all2
     (\<lambda>r r'. (\<exists>a b c d. r' = r\<lparr>ul_current_xp := a, ul_xp_to_next_level := b,
                                ul_total_xp := c, ul_level := d\<rparr>) \<and>
              (\<not> (ul_guild_id r = g \<and> ul_user_id r = u) \<longrightarrow> r' = r))
     (UserLevels db) (UserLevels (update_user_levels db g u nx nt a nl))"
proof -
  have "\<exists>a b c d. r = r\<lparr>ul_current_xp := a, ul_xp_to_next_level := b,
                         ul_total_xp := c, ul_level := d\<rparr>" for r :: UserLevelsTable
    by (intro exI [of _ "ul_current_xp r"] exI [of _ "ul_xp_to_next_level r"]
          exI [of _ "ul_total_xp r"] exI [of _ "ul_level r"]) simp
  moreover have "\<exists>a' b c d. r\<lparr>ul_current_xp := nx, ul_xp_to_next_level := nt,
                          ul_total_xp := ul_total_xp r + a, ul_level := nl\<rparr>
                     = r\<lparr>ul_current_xp := a', ul_xp_to_next_level := b,
                         ul_total_xp := c, ul_level := d\<rparr>" for r :: UserLevelsTable
    by blast
  ultimately show ?thesis
    by (simp add: update_user_levels_def list_all2_map2 list_all2_same)
qed

lemma update_user_levels_other_tables:
  "LevelRewards (update_user_levels db g u nx nt a nl) = LevelRewards db \<and>
   RoleChangeQueue (update_user_levels db g u nx nt a nl) = RoleChangeQueue db \<and>
   RoleChangeQueue_id_seq (update_user_levels db g u nx nt a nl) = RoleChangeQueue_id_seq db"
  by (simp add: update_user_levels_def)

lemma update_user_levels_count:
  "length (filter (\<lambda>r. ul_guild_id r = g \<and> ul_user_id r = u)
             (UserLevels (update_user_levels db g u nx nt a nl))) =
   length (filter (\<lambda>r. ul_guild_id r = g \<and> ul_user_id r = u) (UserLevels db))"
proof -
  let ?P = "\<lambda>r. ul_guild_id r = g \<and> ul_user_id r = u"
  let ?f = "\<lambda>r. if ul_guild_id r = g \<and> ul_user_id r = u
                   then r\<lparr>ul_current_xp := nx, ul_xp_to_next_level := nt,
                          ul_total_xp := ul_total_xp r + a, ul_level := nl\<rparr>
                   else r"
  have "filter ?P (map ?f (UserLevels db)) = map ?f (filter ?P (UserLevels db))"
    by (rule filter_map_preserved) simp
  then show ?thesis by (simp add: update_user_levels_def)
qed

lemma fetch_user_level_info_count:
  "(fetch_user_level_info db g u = None \<longrightarrow>
      length (filter (\<lambda>r. ul_guild_id r = g \<and> ul_user_id r = u) (UserLevels db)) = 0) \<and>
   (fetch_user_level_info db g u \<noteq> None \<longrightarrow>
      1 \<le> length (filter (\<lambda>r. ul_guild_id r = g \<and> ul_user_id r = u) (UserLevels db)))"
  by (cases "filter (\<lambda>r. ul_guild_id r = g \<and> ul_user_id r = u) (UserLevels db)")
     (simp_all add: fetch_user_level_info_def fetchone_def)

section \<open>Properties of the reward queries\<close>

text \<open>The first row of a table ordered by descending level has the highest level.\<close>

lemma order_by_level_desc_set: "set (order_by_level_desc rows) = set rows"
  by (simp add: order_by_level_desc_def)

lemma order_by_level_desc_first:
  assumes "fetchone (order_by_level_desc rows) = Some r"
  shows "r \<in> set rows \<and> (\<forall>r' \<in> set rows. lr_level r' \<le> lr_level r)"
proof -
  from assms obtain rest where e: "order_by_level_desc rows = r # rest"
    by (cases "order_by_level_desc rows") (simp_all add: fetchone_def)
  have "sorted (map (\<lambda>r. - lr_level r) (order_by_level_desc rows))"
    by (simp add: order_by_level_desc_def)
  with e have "\<forall>r' \<in> set rest. lr_level r' \<le> lr_level r" by simp
  then have "\<forall>r' \<in> set (r # rest). lr_level r' \<le> lr_level r" by simp
  moreover have "set (r # rest) = set rows"
    using order_by_level_desc_set [of rows] by (simp add: e)
  ultimately show ?thesis by auto
qed

lemma fetchone_order_by_None:
  "fetchone (order_by_level_desc rows) = None \<longleftrightarrow> rows = []"
  using order_by_level_desc_set [of rows] by (auto simp add: fetchone_None_iff)

lemma fetch_eligible_level_reward_for_level_fetchone:
  "fetch_eligible_level_reward_for_level db g level =
     map_option LevelReward_from_table
       (fetchone (order_by_level_desc
          (filter (\<lambda>r. lr_guild_id r = g \<and> lr_level r \<le> level) (LevelRewards db))))"
  by (cases "order_by_level_desc
          (filter (\<lambda>r. lr_guild_id r = g \<and> lr_level r \<le> level) (LevelRewards db))")
     (simp_all add: fetch_eligible_level_reward_for_level_def
        fetch_eligible_level_rewards_for_level_def fetchone_def)

lemmas reward_eval =
  fetch_eligible_level_reward_for_level_fetchone fetch_previous_level_reward_def
  fetch_next_level_reward_def example_rewards_def order_by_level_desc_def fetchone_def
  LevelReward_from_table_def

text \<open>
  \<^verbatim>\<open>_fetch_previous_level_reward\<close> returns the reward of the highest level below the given one,
  which is the nearest; \<^verbatim>\<open>_fetch_next_level_reward\<close>, ordering the same way, returns the reward
  of the highest level above the given one.
\<close>

lemma fetch_previous_level_reward_fetchone:
  "fetch_previous_level_reward db g level =
     map_option LevelReward_from_table
       (fetchone (order_by_level_desc
          (filter (\<lambda>r. lr_guild_id r = g \<and> lr_level r < level) (LevelRewards db))))"
  by (simp add: fetch_previous_level_reward_def split: option.splits)

lemma fetch_next_level_reward_fetchone:
  "fetch_next_level_reward db g level =
     map_option LevelReward_from_table
       (fetchone (order_by_level_desc
          (filter (\<lambda>r. lr_guild_id r = g \<and> lr_level r > level) (LevelRewards db))))"
  by (simp add: fetch_next_level_reward_def split: option.splits)

lemma fetch_previous_level_reward_nearest:
  "(fetch_previous_level_reward db g level = None \<longleftrightarrow>
      \<not> (\<exists>r \<in> set (LevelRewards db). lr_guild_id r = g \<and> lr_level r < level)) \<and>
   (\<forall>reward. fetch_previous_level_reward db g level = Some reward \<longrightarrow>
      reward \<in> LevelReward_from_table ` set (LevelRewards db) \<and>
      reward_guild_id reward = g \<and> reward_level reward < level \<and>
      (\<forall>r \<in> set (LevelRewards db). lr_guild_id r = g \<and> lr_level r < level \<longrightarrow>
         lr_level r \<le> reward_level reward))"
proof (intro conjI allI impI)
  show "fetch_previous_level_reward db g level = None \<longleftrightarrow>
      \<not> (\<exists>r \<in> set (LevelRewards db). lr_guild_id r = g \<and> lr_level r < level)"
    by (simp add: fetch_previous_level_reward_fetchone fetchone_order_by_None
          filter_empty_conv)
next
  fix reward
  assume "fetch_previous_level_reward db g level = Some reward"
  then obtain r where
    f: "fetchone (order_by_level_desc
          (filter (\<lambda>r. lr_guild_id r = g \<and> lr_level r < level) (LevelRewards db))) = Some r"
    and e: "reward = LevelReward_from_table r"
    by (auto simp add: fetch_previous_level_reward_fetchone)
  note h = order_by_level_desc_first [OF f]
  from h e show "reward \<in> LevelReward_from_table ` set (LevelRewards db)" by simp
  from h e show "reward_guild_id reward = g" by (simp add: LevelReward_from_table_def)
  from h e show "reward_level reward < level" by (simp add: LevelReward_from_table_def)
  from h e show "\<forall>r \<in> set (LevelRewards db). lr_guild_id r = g \<and> lr_level r < level \<longrightarrow>
         lr_level r \<le> reward_level reward"
    by (simp add: LevelReward_from_table_def)
qed

lemma fetch_next_level_reward_farthest:
  "(fetch_next_level_reward db g level = None \<longleftrightarrow>
      \<not> (\<exists>r \<in> set (LevelRewards db). lr_guild_id r = g \<and> lr_level r > level)) \<and>
   (\<forall>reward. fetch_next_level_reward db g level = Some reward \<longrightarrow>
      reward \<in> LevelReward_from_table ` set (LevelRewards db) \<and>
      reward_guild_id reward = g \<and> reward_level reward > level \<and>
      (\<forall>r \<in> set (LevelRewards db). lr_guild_id r = g \<and> lr_level r > level \<longrightarrow>
         lr_level r \<le> reward_level reward))"
proof (intro conjI allI impI)
  show "fetch_next_level_reward db g level = None \<longleftrightarrow>
      \<not> (\<exists>r \<in> set (LevelRewards db). lr_guild_id r = g \<and> lr_level r > level)"
    by (simp add: fetch_next_level_reward_fetchone fetchone_order_by_None
          filter_empty_conv)
next
  fix reward
  assume "fetch_next_level_reward db g level = Some reward"
  then obtain r where
    f: "fetchone (order_by_level_desc
          (filter (\<lambda>r. lr_guild_id r = g \<and> lr_level r > level) (LevelRewards db))) = Some r"
    and e: "reward = LevelReward_from_table r"
    by (auto simp add: fetch_next_level_reward_fetchone)
  note h = order_by_level_desc_first [OF f]
  from h e show "reward \<in> LevelReward_from_table ` set (LevelRewards db)" by simp
  from h e show "reward_guild_id reward = g" by (simp add: LevelReward_from_table_def)
  from h e show "reward_level reward > level" by (simp add: LevelReward_from_table_def)
  from h e show "\<forall>r \<in> set (LevelRewards db). lr_guild_id r = g \<and> lr_level r > level \<longrightarrow>
         lr_level r \<le> reward_level reward"
    by (simp add: LevelReward_from_table_def)
qed

section \<open>Properties of the role-change queue\<close>

lemma array_agg_list: "(case array_agg vs of None \<Rightarrow> [] | Some xs \<Rightarrow> xs) = vs"
  by (simp add: array_agg_def)

lemma array_agg_set: "(case array_agg vs of None \<Rightarrow> {} | Some xs \<Rightarrow> set xs) = set vs"
  by (simp add: array_agg_def)

lemma fetch_role_changes_map:
  "fetch_role_changes db g =
     map (\<lambda>member_id.
            \<lparr>mrc_guild_id = g, mrc_member_id = member_id,
             ids = map rq_id (filter (\<lambda>r. rq_member_id r = member_id) (pending_entries db g)),
             roles_added = rq_role_id `
               {r \<in> set (pending_entries db g). rq_member_id r = member_id \<and> rq_action r = 1},
             roles_removed = rq_role_id `
               {r \<in> set (pending_entries db g). rq_member_id r = member_id \<and> rq_action r = 0}\<rparr>)
         (remdups (map rq_member_id (pending_entries db g)))"
proof -
  have s: "set (map rq_role_id (filter (\<lambda>r. rq_action r = a) (filter (\<lambda>r. rq_member_id r = m) rows)))
        = rq_role_id ` {r \<in> set rows. rq_member_id r = m \<and> rq_action r = a}"
    for a m and rows :: "RoleChangeQueueTable list"
    by auto
  show ?thesis
    unfolding fetch_role_changes_def Let_def MemberRoleChanges_init_def
      array_agg_list array_agg_set s pending_entries_def ..
qed

lemma fetch_role_changes_members:
  "map mrc_member_id (fetch_role_changes db g) = remdups (map rq_member_id (pending_entries db g))"
  by (simp add: fetch_role_changes_map comp_def)

lemma fetch_role_changes_entry:
  assumes "c \<in> set (fetch_role_changes db g)"
  shows "mrc_guild_id c = g \<and>
     ids c = map rq_id (filter (\<lambda>r. rq_member_id r = mrc_member_id c) (pending_entries db g)) \<and>
     ids c \<noteq> [] \<and>
     roles_added c = rq_role_id `
       {r \<in> set (pending_entries db g). rq_member_id r = mrc_member_id c \<and> rq_action r = 1} \<and>
     roles_removed c = rq_role_id `
       {r \<in> set (pending_entries db g). rq_member_id r = mrc_member_id c \<and> rq_action r = 0}"
proof -
  from assms obtain m where m: "m \<in> set (map rq_member_id (pending_entries db g))"
    and c: "c = \<lparr>mrc_guild_id = g, mrc_member_id = m,
             ids = map rq_id (filter (\<lambda>r. rq_member_id r = m) (pending_entries db g)),
             roles_added = rq_role_id `
               {r \<in> set (pending_entries db g). rq_member_id r = m \<and> rq_action r = 1},
             roles_removed = rq_role_id `
               {r \<in> set (pending_entries db g). rq_member_id r = m \<and> rq_action r = 0}\<rparr>"
    unfolding fetch_role_changes_map by auto
  from m have "filter (\<lambda>r. rq_member_id r = m) (pending_entries db g) \<noteq> []"
    by (auto simp add: filter_empty_conv)
  with c show ?thesis by simp
qed

lemma pending_entries_insert:
  "pending_entries (insert_role_change db action g m role) g =
     pending_entries db g @
       [\<lparr>rq_id = RoleChangeQueue_id_seq db, rq_action = RoleAction_value action,
         rq_status = enqueued, rq_guild_id = g, rq_member_id = m, rq_role_id = role\<rparr>]"
  by (simp add: pending_entries_def insert_role_change_def)

lemma fetch_role_changes_grant_revoke:
  "\<exists>c \<in> set (fetch_role_changes
               (insert_role_change (insert_role_change db grant g m role) revoke g m role) g).
     mrc_member_id c = m \<and> role \<in> roles_added c \<and> role \<in> roles_removed c"
proof -
  let ?db = "insert_role_change (insert_role_change db grant g m role) revoke g m role"
  let ?g = "\<lparr>rq_id = RoleChangeQueue_id_seq db, rq_action = 1,
             rq_status = enqueued, rq_guild_id = g, rq_member_id = m, rq_role_id = role\<rparr>"
  let ?r = "\<lparr>rq_id = RoleChangeQueue_id_seq (insert_role_change db grant g m role), rq_action = 0,
             rq_status = enqueued, rq_guild_id = g, rq_member_id = m, rq_role_id = role\<rparr>"
  have p: "pending_entries ?db g = pending_entries db g @ [?g, ?r]"
    by (simp add: pending_entries_insert)
  then have "m \<in> set (map mrc_member_id (fetch_role_changes ?db g))"
    by (simp add: fetch_role_changes_members)
  then obtain c where c: "c \<in> set (fetch_role_changes ?db g)" and cm: "mrc_member_id c = m"
    by auto
  from fetch_role_changes_entry [OF c] cm
  have a: "roles_added c = rq_role_id `
       {r \<in> set (pending_entries ?db g). rq_member_id r = m \<and> rq_action r = 1}"
    and r: "roles_removed c = rq_role_id `
       {r \<in> set (pending_entries ?db g). rq_member_id r = m \<and> rq_action r = 0}"
    by simp_all
  have "?g \<in> {r \<in> set (pending_entries ?db g). rq_member_id r = m \<and> rq_action r = 1}"
    unfolding p by simp
  then have "rq_role_id ?g \<in> roles_added c" unfolding a by (rule imageI)
  moreover have "?r \<in> {r \<in> set (pending_entries ?db g). rq_member_id r = m \<and> rq_action r = 0}"
    unfolding p by simp
  then have "rq_role_id ?r \<in> roles_removed c" unfolding r by (rule imageI)
  ultimately show ?thesis using c cm by auto
qed

section \<open>The properties stated by the specification\<close>

subsection \<open>The XP award engine\<close>

text \<open>
  C9: the level-up loop inside \<^verbatim>\<open>award_xp\<close> terminates, and \<^verbatim>\<open>award_xp\<close> is a total
  function. The loop returns a result from every starting level, experience and threshold
  (also from a threshold that is not positive), and \<^verbatim>\<open>award_xp\<close> returns an outcome for
  every database, message and amount. After the first level-up the threshold is the value of
  the curve, which is at least 100 at every level \<open>n \<ge> 0\<close> and at least 20 from level \<open>-2\<close>
  on (lemma \<open>curve_pos\<close>), so the experience left strictly decreases; below level \<open>-2\<close> the
  level itself climbs towards it.
\<close>

theorem award_xp_terminates:
  "(\<exists>result. award_xp_loop level xp xp_to_next_level = Some result) \<and>
   100 \<le> 5 * (int n) ^ 2 + 50 * int n + 100 \<and>
   (\<exists>outcome. award_xp db message amount = Some outcome)"
proof (intro conjI)
  show "\<exists>result. award_xp_loop level xp xp_to_next_level = Some result"
    by (rule award_xp_loop_returns)
next
  show "100 \<le> 5 * (int n) ^ 2 + 50 * int n + 100"
    by simp
next
  show "\<exists>outcome. award_xp db message amount = Some outcome"
  proof (cases "guild message")
    case None
    then show ?thesis by (simp add: award_xp_def)
  next
    case (Some g)
    show ?thesis
    proof (cases "author message")
      case (User u)
      with Some show ?thesis by (simp add: award_xp_def)
    next
      case (Member m)
      from award_xp_result [OF Some Member, of db amount] show ?thesis by metis
    qed
  qed
qed

text \<open>
  C2: the state \<^verbatim>\<open>award_xp\<close> produces satisfies \<open>current_xp < xp_to_next_level\<close>, for the
  state read back from the table and for every stored row of the member. It holds from every
  starting state and for every amount, so in particular from the states that satisfy the
  invariant (the freshly created one among them) and for positive amounts.
\<close>

theorem award_xp_preserves_invariant:
  assumes "guild message = Some g" and "author message = Member m"
  shows "\<exists>db' events post.
     award_xp db message amount = Some (Inr (db', events)) \<and>
     fetch_user_level_info db' g m = Some post \<and>
     current_xp post < xp_to_level_up post \<and>
     (\<forall>r \<in> set (UserLevels db'). ul_guild_id r = g \<and> ul_user_id r = m \<longrightarrow>
        ul_current_xp r < ul_xp_to_next_level r)"
proof (rule award_xp_result [OF assms, of db amount])
  fix db1 info nl nx nt
  assume f: "fetch_user_level_info db1 g m = Some info"
    and l: "award_xp_loop (current_level info) (current_xp info + amount) (xp_to_level_up info)
              = Some (nl, nx, nt)"
    and a: "award_xp db message amount =
      Some (Inr (update_user_levels db1 g m nx nt amount nl,
                 if fetch_user_level_info db g m = None \<or> nl \<noteq> current_level info
                 then [pidroid_level_up (Member m) message info
                         \<lparr>row = row info, guild_id = g, user_id = m,
                          total_xp = total_xp info + amount, current_xp = nx,
                          xp_to_level_up = nt, current_level = nl,
                          progress_character = progress_character info, rank = None\<rparr>]
                 else []))"
  from award_xp_loop_exit [OF l] have lt: "nx < nt" by simp
  define post where "post = info\<lparr>total_xp := total_xp info + amount, current_xp := nx,
                                    xp_to_level_up := nt, current_level := nl\<rparr>"
  have p: "fetch_user_level_info (update_user_levels db1 g m nx nt amount nl) g m = Some post"
    by (simp add: fetch_user_level_info_update f post_def)
  have i: "current_xp post < xp_to_level_up post"
    using lt by (simp add: post_def)
  have r: "\<forall>r \<in> set (UserLevels (update_user_levels db1 g m nx nt amount nl)).
      ul_guild_id r = g \<and> ul_user_id r = m \<longrightarrow> ul_current_xp r < ul_xp_to_next_level r"
    using update_user_levels_matching [of _ db1 g m nx nt amount nl] lt by auto
  from a p i r show ?thesis by blast
qed

text \<open>The invariant after awarding 250 XP to a member without a row.\<close>

theorem award_xp_preserves_invariant_witness:
  "guild example_message = Some 10 \<and> author example_message = Member 20 \<and>
   (\<exists>db' events post.
      award_xp empty_database example_message 250 = Some (Inr (db', events)) \<and>
      fetch_user_level_info db' 10 20 = Some post \<and>
      current_xp post < xp_to_level_up post)"
proof -
  have g: "guild example_message = Some 10" and a: "author example_message = Member 20"
    by (simp_all add: example_message_def)
  from award_xp_preserves_invariant [OF g a, of empty_database 250] g a
  show ?thesis by blast
qed

text \<open>
  C1: \<^verbatim>\<open>award_xp\<close> conforms to its state-transformation contract. For a message of member
  \<open>m\<close> in guild \<open>g\<close> the call returns a new database. The state \<open>pre\<close> it starts from is
  the stored one or, when the member has no row, the state of a row created under the next
  primary key with \<open>total_xp = 0\<close>, \<open>current_xp = 0\<close>, \<open>level = 0\<close> and
  \<open>xp_to_next_level = 100\<close>. The stored state \<open>post\<close> is the result of the specification's
  loop (\<open>spec_level_up\<close>, which has at most one result) started with
  \<open>xp = current_xp + amount\<close>; its \<open>total_xp\<close> is that of \<open>pre\<close> plus the amount, and it keeps
  the row, guild, member and progress character of \<open>pre\<close>. Every stored row of the member
  carries its \<open>current_xp\<close>, \<open>level\<close> and \<open>xp_to_next_level\<close>. When the member had no row, the
  table afterwards is the old table followed by the one created row, which holds the amount
  as its total and the result of the loop started from \<open>(0, amount, 100)\<close>. From level 0 with
  no experience and threshold 100, awarding 100 XP gives level 1 and threshold 155.
\<close>

theorem award_xp_contract:
  assumes "guild message = Some g" and "author message = Member m"
  shows "\<exists>db' events pre post.
     award_xp db message amount = Some (Inr (db', events)) \<and>
     (case fetch_user_level_info db g m of
        Some info \<Rightarrow> pre = info
      | None \<Rightarrow>
          pre = \<lparr>row = UserLevels_id_seq db, guild_id = g, user_id = m, total_xp = 0,
                 current_xp = 0, xp_to_level_up = 100, current_level = 0,
                 progress_character = None, rank = None\<rparr>) \<and>
     spec_level_up (current_level pre, current_xp pre + amount, xp_to_level_up pre)
                   (current_level post, current_xp post, xp_to_level_up post) \<and>
     fetch_user_level_info db' g m = Some post \<and>
     total_xp post = total_xp pre + amount \<and>
     row post = row pre \<and> guild_id post = g \<and> user_id post = m \<and>
     progress_character post = progress_character pre \<and>
     (\<forall>r \<in> set (UserLevels db'). ul_guild_id r = g \<and> ul_user_id r = m \<longrightarrow>
        ul_current_xp r = current_xp post \<and> ul_level r = current_level post \<and>
        ul_xp_to_next_level r = xp_to_level_up post) \<and>
     (fetch_user_level_info db g m = None \<longrightarrow>
        UserLevels db' = UserLevels db @
          [\<lparr>ul_id = UserLevels_id_seq db, ul_guild_id = g, ul_user_id = m,
            ul_total_xp = amount, ul_current_xp = current_xp post,
            ul_xp_to_next_level = xp_to_level_up post, ul_level = current_level post,
            ul_progress_character = None\<rparr>] \<and>
        spec_level_up (0, amount, 100)
                      (current_level post, current_xp post, xp_to_level_up post)) \<and>
     (current_level pre = 0 \<and> current_xp pre = 0 \<and> xp_to_level_up pre = 100 \<and> amount = 100 \<longrightarrow>
        current_level post = 1 \<and> current_xp post = 0 \<and> xp_to_level_up post = 155)"
proof (rule award_xp_result [OF assms, of db amount])
  fix db1 info nl nx nt
  assume s: "fetch_user_level_info db g m = Some info \<and> db1 = db \<or>
             fetch_user_level_info db g m = None \<and> db1 = add_user_level_entry db g m \<and>
             info = MemberLevelInfo_from_table (UserLevelsTable_new (UserLevels_id_seq db) g m) None"
    and f: "fetch_user_level_info db1 g m = Some info"
    and l: "award_xp_loop (current_level info) (current_xp info + amount) (xp_to_level_up info)
              = Some (nl, nx, nt)"
    and a: "award_xp db message amount =
      Some (Inr (update_user_levels db1 g m nx nt amount nl,
                 if fetch_user_level_info db g m = None \<or> nl \<noteq> current_level info
                 then [pidroid_level_up (Member m) message info
                         \<lparr>row = row info, guild_id = g, user_id = m,
                          total_xp = total_xp info + amount, current_xp = nx,
                          xp_to_level_up = nt, current_level = nl,
                          progress_character = progress_character info, rank = None\<rparr>]
                 else []))"
  define post where "post = info\<lparr>total_xp := total_xp info + amount, current_xp := nx,
                                    xp_to_level_up := nt, current_level := nl\<rparr>"
  have pre: "case fetch_user_level_info db g m of
        Some info' \<Rightarrow> info = info'
      | None \<Rightarrow>
          info = \<lparr>row = UserLevels_id_seq db, guild_id = g, user_id = m, total_xp = 0,
                  current_xp = 0, xp_to_level_up = 100, current_level = 0,
                  progress_character = None, rank = None\<rparr>"
    using s by (auto simp add: MemberLevelInfo_from_table_def UserLevelsTable_new_def)
  have sp: "spec_level_up (current_level info, current_xp info + amount, xp_to_level_up info)
                   (current_level post, current_xp post, xp_to_level_up post)"
    using award_xp_loop_spec [OF l] by (simp add: post_def)
  have p: "fetch_user_level_info (update_user_levels db1 g m nx nt amount nl) g m = Some post"
    by (simp add: fetch_user_level_info_update f post_def)
  have t: "total_xp post = total_xp info + amount"
    by (simp add: post_def)
  have k: "row post = row info \<and> guild_id post = g \<and> user_id post = m \<and>
           progress_character post = progress_character info"
    using fetch_user_level_info_key [OF f] by (simp add: post_def)
  have r: "\<forall>r \<in> set (UserLevels (update_user_levels db1 g m nx nt amount nl)).
      ul_guild_id r = g \<and> ul_user_id r = m \<longrightarrow>
        ul_current_xp r = current_xp post \<and> ul_level r = current_level post \<and>
        ul_xp_to_next_level r = xp_to_level_up post"
    using update_user_levels_matching [of _ db1 g m nx nt amount nl] by (auto simp add: post_def)
  have c: "fetch_user_level_info db g m = None \<longrightarrow>
        UserLevels (update_user_levels db1 g m nx nt amount nl) = UserLevels db @
          [\<lparr>ul_id = UserLevels_id_seq db, ul_guild_id = g, ul_user_id = m,
            ul_total_xp = amount, ul_current_xp = current_xp post,
            ul_xp_to_next_level = xp_to_level_up post, ul_level = current_level post,
            ul_progress_character = None\<rparr>] \<and>
        spec_level_up (0, amount, 100)
                      (current_level post, current_xp post, xp_to_level_up post)"
  proof
    assume n: "fetch_user_level_info db g m = None"
    with s have d: "db1 = add_user_level_entry db g m"
      and i: "info = MemberLevelInfo_from_table (UserLevelsTable_new (UserLevels_id_seq db) g m) None"
      by simp_all
    from n have "\<forall>r \<in> set (UserLevels db). \<not> (ul_guild_id r = g \<and> ul_user_id r = m)"
      by (simp add: fetch_user_level_info_None_iff)
    then have u: "map (\<lambda>r. if ul_guild_id r = g \<and> ul_user_id r = m
                   then r\<lparr>ul_current_xp := nx, ul_xp_to_next_level := nt,
                          ul_total_xp := ul_total_xp r + amount, ul_level := nl\<rparr>
                   else r) (UserLevels db) = UserLevels db"
      by (intro map_idI) auto
    have 1: "UserLevels (update_user_levels db1 g m nx nt amount nl) = UserLevels db @
          [\<lparr>ul_id = UserLevels_id_seq db, ul_guild_id = g, ul_user_id = m,
            ul_total_xp = amount, ul_current_xp = current_xp post,
            ul_xp_to_next_level = xp_to_level_up post, ul_level = current_level post,
            ul_progress_character = None\<rparr>]"
      by (simp add: d update_user_levels_def add_user_level_entry_def u
            UserLevelsTable_new_def post_def)
    from sp i have 2: "spec_level_up (0, amount, 100)
                      (current_level post, current_xp post, xp_to_level_up post)"
      by (simp add: MemberLevelInfo_from_table_def UserLevelsTable_new_def)
    from 1 2 show "UserLevels (update_user_levels db1 g m nx nt amount nl) = UserLevels db @
          [\<lparr>ul_id = UserLevels_id_seq db, ul_guild_id = g, ul_user_id = m,
            ul_total_xp = amount, ul_current_xp = current_xp post,
            ul_xp_to_next_level = xp_to_level_up post, ul_level = current_level post,
            ul_progress_character = None\<rparr>] \<and>
        spec_level_up (0, amount, 100)
                      (current_level post, current_xp post, xp_to_level_up post)" ..
  qed
  have e: "current_level info = 0 \<and> current_xp info = 0 \<and> xp_to_level_up info = 100 \<and> amount = 100 \<longrightarrow>
        current_level post = 1 \<and> current_xp post = 0 \<and> xp_to_level_up post = 155"
    using l by (auto simp add: post_def award_xp_loop_first_level)
  show ?thesis
    apply (rule exI [of _ "update_user_levels db1 g m nx nt amount nl"])
    apply (rule exI)
    apply (rule exI [of _ info])
    apply (rule exI [of _ post])
    apply (intro conjI)
             apply (rule a)
            apply (rule pre)
           apply (rule sp)
          apply (rule p)
         apply (rule t)
        apply (rule k [THEN conjunct1])
       apply (rule k [THEN conjunct2, THEN conjunct1])
      apply (rule k [THEN conjunct2, THEN conjunct2, THEN conjunct1])
     apply (rule k [THEN conjunct2, THEN conjunct2, THEN conjunct2])
    apply (rule r)
   apply (rule c)
  apply (rule e)
  done
qed

text \<open>
  Awarding 100 XP to a member without a row: the created row holds a total of 100, level 1, no
  experience left and threshold 155.
\<close>

theorem award_xp_contract_witness:
  "guild example_message = Some 10 \<and> author example_message = Member 20 \<and>
   (\<exists>db' events post.
      award_xp empty_database example_message 100 = Some (Inr (db', events)) \<and>
      fetch_user_level_info db' 10 20 = Some post \<and>
      total_xp post = 100 \<and>
      current_level post = 1 \<and> current_xp post = 0 \<and> xp_to_level_up post = 155)"
proof -
  have g: "guild example_message = Some 10" and a: "author example_message = Member 20"
    by (simp_all add: example_message_def)
  have n: "fetch_user_level_info empty_database 10 20 = None"
    by (simp add: fetch_user_level_info_def empty_database_def fetchone_def)
  from award_xp_contract [OF g a, of empty_database 100]
  obtain db' events and pre post :: MemberLevelInfo where
    r: "award_xp empty_database example_message 100 = Some (Inr (db', events))"
      "fetch_user_level_info db' 10 20 = Some post"
    and p: "pre = \<lparr>row = UserLevels_id_seq empty_database, guild_id = 10, user_id = 20,
                   total_xp = 0, current_xp = 0, xp_to_level_up = 100, current_level = 0,
                   progress_character = None, rank = None\<rparr>"
    and t: "total_xp post = total_xp pre + 100"
    and i: "current_level pre = 0 \<and> current_xp pre = 0 \<and> xp_to_level_up pre = 100 \<and> (100::int) = 100 \<longrightarrow>
        current_level post = 1 \<and> current_xp post = 0 \<and> xp_to_level_up post = 155"
    unfolding n option.case by blast
  from p t i have "total_xp post = 100 \<and>
      current_level post = 1 \<and> current_xp post = 0 \<and> xp_to_level_up post = 155"
    by simp
  with r g a show ?thesis by blast
qed

text \<open>
  C3: after a sequence of \<^verbatim>\<open>award_xp\<close> calls on the same guild and member, the stored
  \<open>total_xp\<close> is the total before the sequence (zero for a member without a row) plus the sum
  of all amounts applied, however many level-ups occur; when every amount is positive the total
  has not decreased.
\<close>

theorem total_xp_is_sum_of_awards:
  assumes "\<forall>(message, amount) \<in> set calls. guild message = Some g \<and> author message = Member m"
  shows "\<exists>db'. award_xp_calls db calls = Some (Inr db') \<and>
           stored_total_xp db' g m = stored_total_xp db g m + sum_list (map snd calls) \<and>
           ((\<forall>(message, amount) \<in> set calls. 0 < amount) \<longrightarrow>
              stored_total_xp db g m \<le> stored_total_xp db' g m)"
  using assms
proof (induction calls arbitrary: db)
  case Nil
  show ?case by simp
next
  case (Cons call calls)
  obtain message amount where c: "call = (message, amount)" by (cases call)
  from Cons.prems c have v: "guild message = Some g" "author message = Member m" by simp_all
  from award_xp_adds_amount [OF v, of db amount] obtain db1 events
    where a: "award_xp db message amount = Some (Inr (db1, events))"
      and t: "stored_total_xp db1 g m = stored_total_xp db g m + amount"
    by blast
  from Cons.prems have "\<forall>(message, amount) \<in> set calls. guild message = Some g \<and> author message = Member m"
    by simp
  from Cons.IH [OF this, of db1] obtain db' where
    r: "award_xp_calls db1 calls = Some (Inr db')"
    and t': "stored_total_xp db' g m = stored_total_xp db1 g m + sum_list (map snd calls)"
    and m': "(\<forall>(message, amount) \<in> set calls. 0 < amount) \<longrightarrow>
              stored_total_xp db1 g m \<le> stored_total_xp db' g m"
    by blast
  have 1: "award_xp_calls db (call # calls) = Some (Inr db')"
    by (simp add: c a r)
  have 2: "stored_total_xp db' g m = stored_total_xp db g m + sum_list (map snd (call # calls))"
    by (simp add: c t t')
  have 3: "(\<forall>(message, amount) \<in> set (call # calls). 0 < amount) \<longrightarrow>
              stored_total_xp db g m \<le> stored_total_xp db' g m"
    using m' t by (auto simp add: c)
  from 1 2 3 show ?case by blast
qed

text \<open>Awards of 100 and 300 XP to a member without a row leave a total of 400.\<close>

theorem total_xp_is_sum_of_awards_witness:
  "(\<exists>db'. award_xp_calls empty_database [(example_message, 100), (example_message, 300)] = Some (Inr db') \<and>
          stored_total_xp db' 10 20 = 400)"
proof -
  have h: "\<forall>(message, amount) \<in> set [(example_message, 100), (example_message, 300 :: int)].
             guild message = Some 10 \<and> author message = Member 20"
    by (simp add: example_message_def)
  have z: "stored_total_xp empty_database 10 20 = 0"
    by (simp add: stored_total_xp_def fetch_user_level_info_def empty_database_def fetchone_def)
  from total_xp_is_sum_of_awards [OF h, of empty_database] obtain db' where
    "award_xp_calls empty_database [(example_message, 100), (example_message, 300)] = Some (Inr db')"
    "stored_total_xp db' 10 20 = stored_total_xp empty_database 10 20 + sum_list (map snd [(example_message, 100), (example_message, 300 :: int)])"
    by blast
  with z show ?thesis by simp
qed

text \<open>
  C4, as the specification states it: a level-up notification is emitted exactly when the level
  increased, and a newly created member whose award leaves them at level 0 gets none. The code
  decides otherwise: a member without a row who is awarded 10 XP stays at level 0 and the
  notification is dispatched.
\<close>

theorem award_xp_notifies_new_member_at_level_0:
  "award_xp
     \<lparr>UserLevels = [], UserLevels_id_seq = 1, LevelRewards = [],
      RoleChangeQueue = [], RoleChangeQueue_id_seq = 1\<rparr>
     \<lparr>message_id = 1, guild = Some 10, author = Member 20\<rparr> 10 =
   Some (Inr
     (\<lparr>UserLevels = [\<lparr>ul_id = 1, ul_guild_id = 10, ul_user_id = 20, ul_total_xp = 10,
                       ul_current_xp = 10, ul_xp_to_next_level = 100, ul_level = 0,
                       ul_progress_character = None\<rparr>],
       UserLevels_id_seq = 2, LevelRewards = [],
       RoleChangeQueue = [], RoleChangeQueue_id_seq = 1\<rparr>,
      [pidroid_level_up (Member 20) \<lparr>message_id = 1, guild = Some 10, author = Member 20\<rparr>
         \<lparr>row = 1, guild_id = 10, user_id = 20, total_xp = 0, current_xp = 0,
          xp_to_level_up = 100, current_level = 0, progress_character = None, rank = None\<rparr>
         \<lparr>row = 1, guild_id = 10, user_id = 20, total_xp = 10, current_xp = 10,
          xp_to_level_up = 100, current_level = 0, progress_character = None, rank = None\<rparr>]))"
  by (simp add: award_xp_def fetch_user_level_info_def fetchone_def insert_member_level_info_def
        add_user_level_entry_def UserLevelsTable_new_def MemberLevelInfo_from_table_def
        award_xp_loop.simps update_user_levels_def)

text \<open>
  C4, amended: \<^verbatim>\<open>award_xp\<close> emits a level-up notification exactly when the member's state
  was newly created by this call (whatever level it ends at) or the member's level increased;
  the notification carries the author, the message, the state before the award and the state
  stored after it.
\<close>

theorem award_xp_level_up_notification:
  assumes "guild message = Some g" and "author message = Member m"
  shows "\<exists>db' events pre post.
     award_xp db message amount = Some (Inr (db', events)) \<and>
     (fetch_user_level_info db g m = Some pre \<or>
      fetch_user_level_info db g m = None \<and>
        pre = MemberLevelInfo_from_table (UserLevelsTable_new (UserLevels_id_seq db) g m) None) \<and>
     fetch_user_level_info db' g m = Some post \<and>
     events = (if fetch_user_level_info db g m = None \<or> current_level pre < current_level post
               then [pidroid_level_up (author message) message pre post] else [])"
proof (rule award_xp_result [OF assms, of db amount])
  fix db1 info nl nx nt
  assume s: "fetch_user_level_info db g m = Some info \<and> db1 = db \<or>
             fetch_user_level_info db g m = None \<and> db1 = add_user_level_entry db g m \<and>
             info = MemberLevelInfo_from_table (UserLevelsTable_new (UserLevels_id_seq db) g m) None"
    and f: "fetch_user_level_info db1 g m = Some info"
    and l: "award_xp_loop (current_level info) (current_xp info + amount) (xp_to_level_up info)
              = Some (nl, nx, nt)"
    and a: "award_xp db message amount =
      Some (Inr (update_user_levels db1 g m nx nt amount nl,
                 if fetch_user_level_info db g m = None \<or> nl \<noteq> current_level info
                 then [pidroid_level_up (Member m) message info
                         \<lparr>row = row info, guild_id = g, user_id = m,
                          total_xp = total_xp info + amount, current_xp = nx,
                          xp_to_level_up = nt, current_level = nl,
                          progress_character = progress_character info, rank = None\<rparr>]
                 else []))"
  define post where "post = info\<lparr>total_xp := total_xp info + amount, current_xp := nx,
                                    xp_to_level_up := nt, current_level := nl\<rparr>"
  from fetch_user_level_info_key [OF f]
  have e: "\<lparr>row = row info, guild_id = g, user_id = m,
            total_xp = total_xp info + amount, current_xp = nx,
            xp_to_level_up = nt, current_level = nl,
            progress_character = progress_character info, rank = None\<rparr> = post"
    by (simp add: post_def)
  from award_xp_loop_exit [OF l] have c: "nl \<noteq> current_level info \<longleftrightarrow> current_level info < current_level post"
    by (auto simp add: post_def)
  have p: "fetch_user_level_info (update_user_levels db1 g m nx nt amount nl) g m = Some post"
    by (simp add: fetch_user_level_info_update f post_def)
  have s': "fetch_user_level_info db g m = Some info \<or>
      fetch_user_level_info db g m = None \<and>
        info = MemberLevelInfo_from_table (UserLevelsTable_new (UserLevels_id_seq db) g m) None"
    using s by blast
  have a': "award_xp db message amount =
      Some (Inr (update_user_levels db1 g m nx nt amount nl,
                 if fetch_user_level_info db g m = None \<or> current_level info < current_level post
                 then [pidroid_level_up (author message) message info post] else []))"
    unfolding a e c assms(2) ..
  from a' s' p show ?thesis by blast
qed

text \<open>Awarding 100 XP to a member without a row dispatches one notification.\<close>

theorem award_xp_level_up_notification_witness:
  "guild example_message = Some 10 \<and> author example_message = Member 20 \<and>
   (\<exists>db' events pre post.
      award_xp empty_database example_message 100 = Some (Inr (db', events)) \<and>
      events = [pidroid_level_up (Member 20) example_message pre post])"
proof -
  have g: "guild example_message = Some 10" and a: "author example_message = Member 20"
    by (simp_all add: example_message_def)
  have n: "fetch_user_level_info empty_database 10 20 = None"
    by (simp add: fetch_user_level_info_def empty_database_def fetchone_def)
  from award_xp_level_up_notification [OF g a, of empty_database 100]
  obtain db' events pre post where
    "award_xp empty_database example_message 100 = Some (Inr (db', events))"
    "events = [pidroid_level_up (author example_message) example_message pre post]"
    unfolding n by auto
  with g a show ?thesis by auto
qed

text \<open>
  C10: \<^verbatim>\<open>award_xp\<close> changes only the columns \<open>current_xp\<close>, \<open>xp_to_next_level\<close>, \<open>total_xp\<close>
  and \<open>level\<close> of the rows of the guild and member it targets. Row by row, over the table as
  it stands once a missing row has been created, every row keeps its \<open>id\<close>, \<open>guild_id\<close>,
  \<open>user_id\<close> and \<open>progress_character\<close>, and a row of another member or guild is unchanged; the
  other tables are untouched; the state in a notification carries the row and the progress
  character of the state before; and when the member had at most one row, the award leaves
  exactly one.
\<close>

theorem award_xp_frame:
  assumes "guild message = Some g" and "author message = Member m"
  shows "\<exists>db' events.
     award_xp db message amount = Some (Inr (db', events)) \<and>
     list_all2
       (\<lambda>r r'. (\<exists>a b c d. r' = r\<lparr>ul_current_xp := a, ul_xp_to_next_level := b,
                                  ul_total_xp := c, ul_level := d\<rparr>) \<and>
                (\<not> (ul_guild_id r = g \<and> ul_user_id r = m) \<longrightarrow> r' = r))
       (if fetch_user_level_info db g m = None
        then UserLevels db @ [UserLevelsTable_new (UserLevels_id_seq db) g m]
        else UserLevels db)
       (UserLevels db') \<and>
     LevelRewards db' = LevelRewards db \<and>
     RoleChangeQueue db' = RoleChangeQueue db \<and>
     RoleChangeQueue_id_seq db' = RoleChangeQueue_id_seq db \<and>
     (\<forall>a msg old new. pidroid_level_up a msg old new \<in> set events \<longrightarrow>
        row new = row old \<and> guild_id new = g \<and> user_id new = m \<and>
        progress_character new = progress_character old) \<and>
     (length (filter (\<lambda>r. ul_guild_id r = g \<and> ul_user_id r = m) (UserLevels db)) \<le> 1 \<longrightarrow>
      length (filter (\<lambda>r. ul_guild_id r = g \<and> ul_user_id r = m) (UserLevels db')) = 1)"
proof (rule award_xp_result [OF assms, of db amount])
  fix db1 info nl nx nt
  assume s: "fetch_user_level_info db g m = Some info \<and> db1 = db \<or>
             fetch_user_level_info db g m = None \<and> db1 = add_user_level_entry db g m \<and>
             info = MemberLevelInfo_from_table (UserLevelsTable_new (UserLevels_id_seq db) g m) None"
    and f: "fetch_user_level_info db1 g m = Some info"
    and a: "award_xp db message amount =
      Some (Inr (update_user_levels db1 g m nx nt amount nl,
                 if fetch_user_level_info db g m = None \<or> nl \<noteq> current_level info
                 then [pidroid_level_up (Member m) message info
                         \<lparr>row = row info, guild_id = g, user_id = m,
                          total_xp = total_xp info + amount, current_xp = nx,
                          xp_to_level_up = nt, current_level = nl,
                          progress_character = progress_character info, rank = None\<rparr>]
                 else []))"
  let ?P = "\<lambda>r. ul_guild_id r = g \<and> ul_user_id r = m"
  let ?db' = "update_user_levels db1 g m nx nt amount nl"
  let ?events = "if fetch_user_level_info db g m = None \<or> nl \<noteq> current_level info
                 then [pidroid_level_up (Member m) message info
                         \<lparr>row = row info, guild_id = g, user_id = m,
                          total_xp = total_xp info + amount, current_xp = nx,
                          xp_to_level_up = nt, current_level = nl,
                          progress_character = progress_character info, rank = None\<rparr>]
                 else []"
  from s have b: "UserLevels db1 =
       (if fetch_user_level_info db g m = None
        then UserLevels db @ [UserLevelsTable_new (UserLevels_id_seq db) g m]
        else UserLevels db)"
    by (auto simp add: add_user_level_entry_def)
  from s have o: "LevelRewards db1 = LevelRewards db \<and> RoleChangeQueue db1 = RoleChangeQueue db \<and>
      RoleChangeQueue_id_seq db1 = RoleChangeQueue_id_seq db"
    by (auto simp add: add_user_level_entry_def)
  have 1: "list_all2
       (\<lambda>r r'. (\<exists>a b c d. r' = r\<lparr>ul_current_xp := a, ul_xp_to_next_level := b,
                                  ul_total_xp := c, ul_level := d\<rparr>) \<and>
                (\<not> (ul_guild_id r = g \<and> ul_user_id r = m) \<longrightarrow> r' = r))
       (if fetch_user_level_info db g m = None
        then UserLevels db @ [UserLevelsTable_new (UserLevels_id_seq db) g m]
        else UserLevels db)
       (UserLevels ?db')"
    using update_user_levels_rows [of g m db1 nx nt amount nl] unfolding b .
  have 2: "LevelRewards ?db' = LevelRewards db \<and> RoleChangeQueue ?db' = RoleChangeQueue db \<and>
      RoleChangeQueue_id_seq ?db' = RoleChangeQueue_id_seq db"
    using o by (simp add: update_user_levels_other_tables)
  have 3: "\<forall>a msg old new. pidroid_level_up a msg old new \<in> set ?events \<longrightarrow>
        row new = row old \<and> guild_id new = g \<and> user_id new = m \<and>
        progress_character new = progress_character old"
    by simp
  have 4: "length (filter ?P (UserLevels db)) \<le> 1 \<longrightarrow> length (filter ?P (UserLevels ?db')) = 1"
  proof
    assume le: "length (filter ?P (UserLevels db)) \<le> 1"
    from s have "length (filter ?P (UserLevels db1)) = 1"
    proof
      assume "fetch_user_level_info db g m = Some info \<and> db1 = db"
      with fetch_user_level_info_count [of db g m] le show ?thesis by simp
    next
      assume n: "fetch_user_level_info db g m = None \<and> db1 = add_user_level_entry db g m \<and>
             info = MemberLevelInfo_from_table (UserLevelsTable_new (UserLevels_id_seq db) g m) None"
      with fetch_user_level_info_count [of db g m] show ?thesis
        by (simp add: add_user_level_entry_def UserLevelsTable_new_def)
    qed
    then show "length (filter ?P (UserLevels ?db')) = 1"
      by (simp add: update_user_levels_count)
  qed
  from a 1 2 3 4 show ?thesis by blast
qed

text \<open>The frame of an award of 100 XP to a member without a row.\<close>

theorem award_xp_frame_witness:
  "guild example_message = Some 10 \<and> author example_message = Member 20 \<and>
   (\<exists>db' events.
      award_xp empty_database example_message 100 = Some (Inr (db', events)) \<and>
      LevelRewards db' = LevelRewards empty_database \<and>
      RoleChangeQueue db' = RoleChangeQueue empty_database \<and>
      length (filter (\<lambda>r. ul_guild_id r = 10 \<and> ul_user_id r = 20) (UserLevels db')) = 1)"
proof -
  have g: "guild example_message = Some 10" and a: "author example_message = Member 20"
    by (simp_all add: example_message_def)
  have e: "length (filter (\<lambda>r. ul_guild_id r = 10 \<and> ul_user_id r = 20)
             (UserLevels empty_database)) \<le> 1"
    by (simp add: empty_database_def)
  from award_xp_frame [OF g a, of empty_database 100] e g a
  show ?thesis by blast
qed

subsection \<open>Level reward resolution\<close>

text \<open>
  C5: \<^verbatim>\<open>fetch_eligible_level_reward_for_level\<close> returns none exactly when the guild has no
  reward with \<open>level \<le> L\<close>; a reward it returns is one of the guild's rewards with
  \<open>level \<le> L\<close>, and no reward of the guild with \<open>level \<le> L\<close> has a higher level. With rewards
  at the levels 5, 10 and 20, level 7 yields the reward of level 5, level 20 the reward of
  level 20, and level 3 none.
\<close>

theorem fetch_eligible_level_reward_for_level_highest:
  "(fetch_eligible_level_reward_for_level db g level = None \<longleftrightarrow>
      \<not> (\<exists>r \<in> set (LevelRewards db). lr_guild_id r = g \<and> lr_level r \<le> level)) \<and>
   (\<forall>reward. fetch_eligible_level_reward_for_level db g level = Some reward \<longrightarrow>
      reward \<in> LevelReward_from_table ` set (LevelRewards db) \<and>
      reward_guild_id reward = g \<and> reward_level reward \<le> level \<and>
      (\<forall>r \<in> set (LevelRewards db). lr_guild_id r = g \<and> lr_level r \<le> level \<longrightarrow>
         lr_level r \<le> reward_level reward)) \<and>
   fetch_eligible_level_reward_for_level example_rewards 10 7 =
     Some \<lparr>reward_id = 2, reward_guild_id = 10, reward_role_id = 105, reward_level = 5\<rparr> \<and>
   fetch_eligible_level_reward_for_level example_rewards 10 20 =
     Some \<lparr>reward_id = 3, reward_guild_id = 10, reward_role_id = 120, reward_level = 20\<rparr> \<and>
   fetch_eligible_level_reward_for_level example_rewards 10 3 = None"
proof (intro conjI allI impI)
  show "fetch_eligible_level_reward_for_level db g level = None \<longleftrightarrow>
      \<not> (\<exists>r \<in> set (LevelRewards db). lr_guild_id r = g \<and> lr_level r \<le> level)"
    by (simp add: fetch_eligible_level_reward_for_level_fetchone fetchone_order_by_None
          filter_empty_conv)
next
  fix reward
  assume "fetch_eligible_level_reward_for_level db g level = Some reward"
  then obtain r where
    f: "fetchone (order_by_level_desc
          (filter (\<lambda>r. lr_guild_id r = g \<and> lr_level r \<le> level) (LevelRewards db))) = Some r"
    and e: "reward = LevelReward_from_table r"
    by (auto simp add: fetch_eligible_level_reward_for_level_fetchone)
  note h = order_by_level_desc_first [OF f]
  from h e show "reward \<in> LevelReward_from_table ` set (LevelRewards db)" by simp
  from h e show "reward_guild_id reward = g" by (simp add: LevelReward_from_table_def)
  from h e show "reward_level reward \<le> level" by (simp add: LevelReward_from_table_def)
  from h e show "\<forall>r \<in> set (LevelRewards db). lr_guild_id r = g \<and> lr_level r \<le> level \<longrightarrow>
         lr_level r \<le> reward_level reward"
    by (simp add: LevelReward_from_table_def)
next
  show "fetch_eligible_level_reward_for_level example_rewards 10 7 =
     Some \<lparr>reward_id = 2, reward_guild_id = 10, reward_role_id = 105, reward_level = 5\<rparr>"
    by (simp add: reward_eval)
  show "fetch_eligible_level_reward_for_level example_rewards 10 20 =
     Some \<lparr>reward_id = 3, reward_guild_id = 10, reward_role_id = 120, reward_level = 20\<rparr>"
    by (simp add: reward_eval)
  show "fetch_eligible_level_reward_for_level example_rewards 10 3 = None"
    by (simp add: reward_eval)
qed

text \<open>At level 12 the example guild's reward is the one of level 10.\<close>

theorem fetch_eligible_level_reward_for_level_highest_witness:
  "\<exists>reward. fetch_eligible_level_reward_for_level example_rewards 10 12 = Some reward \<and>
      reward_guild_id reward = 10 \<and> reward_level reward \<le> 12 \<and> 10 \<le> reward_level reward"
proof -
  note t = fetch_eligible_level_reward_for_level_highest [of example_rewards 10 12]
  have x: "\<exists>r \<in> set (LevelRewards example_rewards). lr_guild_id r = 10 \<and> lr_level r \<le> 12"
    by (simp add: example_rewards_def)
  with t obtain reward where s: "fetch_eligible_level_reward_for_level example_rewards 10 12 = Some reward"
    by (cases "fetch_eligible_level_reward_for_level example_rewards 10 12") auto
  with t have a: "reward_guild_id reward = 10 \<and> reward_level reward \<le> 12"
    and b: "\<forall>r \<in> set (LevelRewards example_rewards). lr_guild_id r = 10 \<and> lr_level r \<le> 12 \<longrightarrow>
         lr_level r \<le> reward_level reward"
    by blast+
  from b have "10 \<le> reward_level reward" by (simp add: example_rewards_def)
  with s a show ?thesis by blast
qed

text \<open>
  C6: \<^verbatim>\<open>previous_reward_for_level\<close> returns the nearest reward strictly below the level and
  \<^verbatim>\<open>next_reward_for_level\<close> the nearest strictly above. The first half holds (lemma
  \<open>fetch_previous_level_reward_nearest\<close>). The second does not hold of the code:
  \<^verbatim>\<open>_fetch_next_level_reward\<close> orders by level descending, as its sibling does, and so returns
  the reward farthest above the level (lemma \<open>fetch_next_level_reward_farthest\<close>). With rewards
  at the levels 5, 10 and 20 and level 7, the code returns the reward of level 20, where the
  nearest reward above is the one of level 10; the previous reward is the one of level 5.
\<close>

theorem fetch_next_level_reward_skips_nearest:
  "fetch_next_level_reward example_rewards 10 7 =
     Some \<lparr>reward_id = 3, reward_guild_id = 10, reward_role_id = 120, reward_level = 20\<rparr> \<and>
   fetch_previous_level_reward example_rewards 10 7 =
     Some \<lparr>reward_id = 2, reward_guild_id = 10, reward_role_id = 105, reward_level = 5\<rparr>"
  by (simp add: reward_eval)

subsection \<open>The role-change queue\<close>

text \<open>
  C7: \<^verbatim>\<open>fetch_role_changes\<close> groups the pending entries of the guild by member. The result
  has one element per member with at least one entry, and no member twice; the element of a
  member holds the IDs of exactly that member's entries (so it is never empty), the set of the
  role IDs of its entries with action grant, and the set of the role IDs of its entries with
  action revoke; every pending entry is listed under its member. After a grant and a revoke of
  the same role are enqueued for a member, the role is in both sets of that member's element.
\<close>

theorem fetch_role_changes_groups_by_member:
  "distinct (map mrc_member_id (fetch_role_changes db g)) \<and>
   set (map mrc_member_id (fetch_role_changes db g)) = rq_member_id ` set (pending_entries db g) \<and>
   (\<forall>c \<in> set (fetch_role_changes db g).
      mrc_guild_id c = g \<and>
      ids c = map rq_id (filter (\<lambda>r. rq_member_id r = mrc_member_id c) (pending_entries db g)) \<and>
      ids c \<noteq> [] \<and>
      roles_added c = rq_role_id `
        {r \<in> set (pending_entries db g).
           rq_member_id r = mrc_member_id c \<and> rq_action r = RoleAction_value grant} \<and>
      roles_removed c = rq_role_id `
        {r \<in> set (pending_entries db g).
           rq_member_id r = mrc_member_id c \<and> rq_action r = RoleAction_value revoke}) \<and>
   (\<forall>r \<in> set (pending_entries db g).
      \<exists>c \<in> set (fetch_role_changes db g).
        mrc_member_id c = rq_member_id r \<and> rq_id r \<in> set (ids c)) \<and>
   (\<exists>c \<in> set (fetch_role_changes
                (insert_role_change (insert_role_change db grant g m role) revoke g m role) g).
      mrc_member_id c = m \<and> role \<in> roles_added c \<and> role \<in> roles_removed c)"
proof (intro conjI ballI)
  show "distinct (map mrc_member_id (fetch_role_changes db g))"
    by (simp add: fetch_role_changes_members)
  show "set (map mrc_member_id (fetch_role_changes db g)) = rq_member_id ` set (pending_entries db g)"
    by (simp add: fetch_role_changes_members)
next
  fix c assume c: "c \<in> set (fetch_role_changes db g)"
  have v: "RoleAction_value grant = 1" "RoleAction_value revoke = 0" by simp_all
  note e = fetch_role_changes_entry [OF c, folded v]
  from e show "mrc_guild_id c = g" by blast
  from e show "ids c = map rq_id (filter (\<lambda>r. rq_member_id r = mrc_member_id c) (pending_entries db g))"
    by blast
  from e show "ids c \<noteq> []" by blast
  from e show "roles_added c = rq_role_id `
        {r \<in> set (pending_entries db g).
           rq_member_id r = mrc_member_id c \<and> rq_action r = RoleAction_value grant}"
    by blast
  from e show "roles_removed c = rq_role_id `
        {r \<in> set (pending_entries db g).
           rq_member_id r = mrc_member_id c \<and> rq_action r = RoleAction_value revoke}"
    by blast
next
  fix r assume r: "r \<in> set (pending_entries db g)"
  then have "rq_member_id r \<in> set (map mrc_member_id (fetch_role_changes db g))"
    by (simp add: fetch_role_changes_members)
  then obtain c where c: "c \<in> set (fetch_role_changes db g)" and m: "mrc_member_id c = rq_member_id r"
    by auto
  from fetch_role_changes_entry [OF c] m r have "rq_id r \<in> set (ids c)" by simp
  with c m show "\<exists>c \<in> set (fetch_role_changes db g).
        mrc_member_id c = rq_member_id r \<and> rq_id r \<in> set (ids c)"
    by blast
next
  show "\<exists>c \<in> set (fetch_role_changes
                (insert_role_change (insert_role_change db grant g m role) revoke g m role) g).
      mrc_member_id c = m \<and> role \<in> roles_added c \<and> role \<in> roles_removed c"
    by (rule fetch_role_changes_grant_revoke)
qed

text \<open>Grant and revoke of role 7 for member 20 of guild 10, on an empty queue.\<close>

theorem fetch_role_changes_groups_by_member_witness:
  "map ids (fetch_role_changes
     (insert_role_change (insert_role_change empty_database grant 10 20 7) revoke 10 20 7) 10) =
     [[1, 2]] \<and>
   (\<exists>c \<in> set (fetch_role_changes
                (insert_role_change (insert_role_change empty_database grant 10 20 7) revoke 10 20 7) 10).
      mrc_member_id c = 20 \<and> 7 \<in> roles_added c \<and> 7 \<in> roles_removed c)"
proof
  show "map ids (fetch_role_changes
     (insert_role_change (insert_role_change empty_database grant 10 20 7) revoke 10 20 7) 10) =
     [[1, 2]]"
    by (simp add: fetch_role_changes_def insert_role_change_def empty_database_def
          MemberRoleChanges_init_def array_agg_def)
  from fetch_role_changes_groups_by_member [of empty_database 10 20 7]
  show "\<exists>c \<in> set (fetch_role_changes
                (insert_role_change (insert_role_change empty_database grant 10 20 7) revoke 10 20 7) 10).
      mrc_member_id c = 20 \<and> 7 \<in> roles_added c \<and> 7 \<in> roles_removed c"
    by (elim conjE)
qed

text \<open>
  C8: \<^verbatim>\<open>delete_role_changes\<close> is idempotent. The operation has no failing outcome; deleting
  the same IDs a second time leaves the database as the first deletion left it, and no entry
  with one of the IDs remains.
\<close>

theorem delete_role_changes_idempotent:
  "delete_role_changes (delete_role_changes db id_list) id_list = delete_role_changes db id_list \<and>
   rq_id ` set (RoleChangeQueue (delete_role_changes db id_list)) \<inter> set id_list = {}"
  by (auto simp add: delete_role_changes_def)

end
